theory Spec2Isabelle
  imports Main
begin

section \<open>Time formatting\<close>

text \<open>
  The durations handled by the application are differences of \<open>Date.now()\<close> readings
  and sums of whole seconds, so they are integers; they are modelled as \<open>int\<close>.
  JavaScript computes with double-precision numbers, which represent every integer up to
  \<open>2^53 - 1 = 9007199254740991\<close> exactly. On non-negative integers of that range
  \<open>Math.floor(a / b)\<close> is \<open>a div b\<close>, \<open>a % b\<close> is \<open>a mod b\<close>, and \<open>String\<close> prints
  all the digits; beyond it the code rounds and the model does not, so what is said below
  about the value of a component is said for durations of that range only. Every reading of
  \<open>Date.now()\<close>, and so every duration the two machines hold, lies within it.
\<close>

text \<open>The largest integer up to which the code's arithmetic is exact.\<close>

definition MAX_SAFE_INTEGER :: int where
  "MAX_SAFE_INTEGER = 9007199254740991"


text \<open>\<open>String(n)\<close> for an integer \<open>n\<close>: its decimal digits, most significant first.\<close>

definition digit_char :: "nat \<Rightarrow> char" where
  "digit_char d = ''0123456789'' ! d"

fun nat_digits :: "nat \<Rightarrow> string" where
  "nat_digits n =
     (if n < 10 then [digit_char n] else nat_digits (n div 10) @ [digit_char (n mod 10)])"

declare nat_digits.simps [simp del]

definition String_of :: "int \<Rightarrow> string" where
  "String_of i = (if i < 0 then CHR ''-'' # nat_digits (nat (- i)) else nat_digits (nat i))"

text \<open>
  \<open>s.padStart(targetLength, padString)\<close>: a string that is already long enough is
  returned as it is (never truncated); otherwise the pad string is repeated, cut to the
  missing length and put in front.
\<close>

definition padStart :: "nat \<Rightarrow> string \<Rightarrow> string \<Rightarrow> string" where
  "padStart targetLength padString s =
     (if targetLength \<le> length s \<or> padString = [] then s
      else take (targetLength - length s)
             (concat (replicate (targetLength - length s) padString)) @ s)"

record time_parts =
  hours :: string
  minutes :: string
  seconds :: string
  milliseconds :: string

text \<open>\<open>formatTime(ms, includeMs)\<close>; the second parameter is never read by the body.\<close>

definition formatTime :: "int \<Rightarrow> bool \<Rightarrow> time_parts" where
  "formatTime ms includeMs =
     (let totalMs = max 0 ms;
          totalSeconds = totalMs div 1000;
          hrs = totalSeconds div 3600;
          mins = (totalSeconds mod 3600) div 60;
          secs = totalSeconds mod 60;
          hundredths = (totalMs mod 1000) div 10
      in \<lparr> hours = padStart 2 ''0'' (String_of hrs),
           minutes = padStart 2 ''0'' (String_of mins),
           seconds = padStart 2 ''0'' (String_of secs),
           milliseconds = padStart 2 ''0'' (String_of hundredths) \<rparr>)"

text \<open>Reading a decimal string back, to say what "decimal string" means.\<close>

definition digit_val :: "char \<Rightarrow> nat" where
  "digit_val c = of_char c - 48"

definition dec_value :: "string \<Rightarrow> nat" where
  "dec_value s = foldl (\<lambda>acc c. 10 * acc + digit_val c) 0 s"

section \<open>The host's interval scheduler\<close>

text \<open>
  \<open>setInterval\<close> hands out a fresh handle and keeps the callback active until
  \<open>clearInterval\<close> is called with that handle; \<open>clearInterval(null)\<close> and
  \<open>clearInterval\<close> of a handle that is not active do nothing. Each machine registers
  one callback function only, so a handle identifies the callback.
\<close>

record scheduler =
  active :: "nat list"
  next_handle :: nat

definition setInterval :: "scheduler \<Rightarrow> nat \<times> scheduler" where
  "setInterval sch =
     (next_handle sch,
      sch\<lparr>active := next_handle sch # active sch, next_handle := Suc (next_handle sch)\<rparr>)"

definition clearInterval :: "nat option \<Rightarrow> scheduler \<Rightarrow> scheduler" where
  "clearInterval h sch =
     (case h of None \<Rightarrow> sch | Some i \<Rightarrow> sch\<lparr>active := removeAll i (active sch)\<rparr>)"

definition no_timers :: scheduler where
  "no_timers = \<lparr>active = [], next_handle = 1\<rparr>"

section \<open>Stopwatch module\<close>

record lap =
  lap_number :: int
  lap_total :: int
  lap_diff :: int

text \<open>One \<open>lap-item\<close> of the rendered list: the text of its three spans.\<close>

record lap_item =
  item_number :: string
  item_diff :: string
  item_time :: string

text \<open>
  The closure variables of the module, the host's scheduler, and the part of the page the
  module writes: the text of the display (markup and white space left out), the
  \<open>disabled\<close> flags of the four buttons, the lap counter and the lap list (the empty
  list stands for the "No laps recorded yet" paragraph).
\<close>

record stopwatch =
  sw_isRunning :: bool
  sw_startTime :: int
  sw_elapsedTime :: int
  sw_intervalId :: "nat option"
  sw_laps :: "lap list"
  sw_timers :: scheduler
  sw_display :: string
  sw_startBtn_disabled :: bool
  sw_pauseBtn_disabled :: bool
  sw_resetBtn_disabled :: bool
  sw_lapBtn_disabled :: bool
  sw_lapCount :: string
  sw_lapList :: "lap_item list"

definition Stopwatch_updateDisplay :: "stopwatch \<Rightarrow> stopwatch" where
  "Stopwatch_updateDisplay s =
     (let time = formatTime (sw_elapsedTime s) True
      in s\<lparr>sw_display :=
             hours time @ '':'' @ minutes time @ '':'' @ seconds time @ ''.'' @ milliseconds time\<rparr>)"

definition Stopwatch_updateButtons :: "stopwatch \<Rightarrow> stopwatch" where
  "Stopwatch_updateButtons s =
     s\<lparr>sw_startBtn_disabled := sw_isRunning s,
       sw_pauseBtn_disabled := \<not> sw_isRunning s,
       sw_resetBtn_disabled := (\<not> sw_isRunning s \<and> sw_elapsedTime s = 0),
       sw_lapBtn_disabled := \<not> sw_isRunning s\<rparr>"

definition lap_html :: "lap \<Rightarrow> lap_item" where
  "lap_html l =
     (let totalTime = formatTime (lap_total l) True;
          diffTime = formatTime (lap_diff l) True
      in \<lparr>item_number = ''Lap '' @ String_of (lap_number l),
          item_diff = ''+'' @ minutes diffTime @ '':'' @ seconds diffTime @ ''.''
                      @ milliseconds diffTime,
          item_time = hours totalTime @ '':'' @ minutes totalTime @ '':''
                      @ seconds totalTime @ ''.'' @ milliseconds totalTime\<rparr>)"

text \<open>
  The loop \<open>for (i = laps.length - 1; i >= 0; i--)\<close>, newest lap first; the second
  argument is \<open>i + 1\<close>.
\<close>

fun laps_html :: "lap list \<Rightarrow> nat \<Rightarrow> lap_item list" where
  "laps_html ls 0 = []"
| "laps_html ls (Suc i) = lap_html (ls ! i) # laps_html ls i"

definition Stopwatch_renderLaps :: "stopwatch \<Rightarrow> stopwatch" where
  "Stopwatch_renderLaps s =
     s\<lparr>sw_lapCount :=
         (if length (sw_laps s) = 1 then ''1 lap''
          else String_of (int (length (sw_laps s))) @ '' laps''),
       sw_lapList := laps_html (sw_laps s) (length (sw_laps s))\<rparr>"

text \<open>The callback given to \<open>setInterval\<close>; \<open>now\<close> is what \<open>Date.now()\<close> returns.\<close>

definition Stopwatch_tick :: "int \<Rightarrow> stopwatch \<Rightarrow> stopwatch" where
  "Stopwatch_tick now s = Stopwatch_updateDisplay (s\<lparr>sw_elapsedTime := now - sw_startTime s\<rparr>)"

definition Stopwatch_start :: "int \<Rightarrow> stopwatch \<Rightarrow> stopwatch" where
  "Stopwatch_start now s =
     (if sw_isRunning s then s
      else let (h, sch) = setInterval (sw_timers s)
           in Stopwatch_updateButtons
                (s\<lparr>sw_isRunning := True,
                   sw_startTime := now - sw_elapsedTime s,
                   sw_intervalId := Some h,
                   sw_timers := sch\<rparr>))"

definition Stopwatch_pause :: "stopwatch \<Rightarrow> stopwatch" where
  "Stopwatch_pause s =
     (if \<not> sw_isRunning s then s
      else Stopwatch_updateButtons
             (s\<lparr>sw_isRunning := False,
                sw_timers := clearInterval (sw_intervalId s) (sw_timers s),
                sw_intervalId := None\<rparr>))"

definition Stopwatch_reset :: "stopwatch \<Rightarrow> stopwatch" where
  "Stopwatch_reset s =
     Stopwatch_renderLaps (Stopwatch_updateButtons (Stopwatch_updateDisplay
       ((Stopwatch_pause s)\<lparr>sw_elapsedTime := 0, sw_laps := []\<rparr>)))"

definition recordLap :: "stopwatch \<Rightarrow> stopwatch" where
  "recordLap s =
     (if \<not> sw_isRunning s then s
      else let lapTime = sw_elapsedTime s;
               prevLapTime = (if length (sw_laps s) > 0
                              then lap_total (sw_laps s ! (length (sw_laps s) - 1)) else 0);
               diff = lapTime - prevLapTime
           in Stopwatch_renderLaps
                (s\<lparr>sw_laps := sw_laps s @
                     [\<lparr>lap_number = int (length (sw_laps s)) + 1,
                       lap_total = lapTime,
                       lap_diff = diff\<rparr>]\<rparr>))"

text \<open>The module before \<open>init\<close> has run (nothing written to the page yet), and \<open>init\<close>.\<close>

definition stopwatch_vars :: stopwatch where
  "stopwatch_vars =
     \<lparr>sw_isRunning = False, sw_startTime = 0, sw_elapsedTime = 0, sw_intervalId = None,
      sw_laps = [], sw_timers = no_timers, sw_display = [],
      sw_startBtn_disabled = False, sw_pauseBtn_disabled = False,
      sw_resetBtn_disabled = False, sw_lapBtn_disabled = False,
      sw_lapCount = [], sw_lapList = []\<rparr>"

definition Stopwatch_init :: stopwatch where
  "Stopwatch_init =
     Stopwatch_renderLaps (Stopwatch_updateButtons (Stopwatch_updateDisplay stopwatch_vars))"

text \<open>
  What can happen to the stopwatch: a click on one of its four buttons, or the host firing
  the interval with handle \<open>h\<close> (which does nothing once that interval is cleared).
  Every event comes with the reading of \<open>Date.now()\<close> at that moment.
\<close>

datatype sw_event = Start | Pause | Reset | Lap | Fire nat

definition Stopwatch_fire :: "nat \<Rightarrow> int \<Rightarrow> stopwatch \<Rightarrow> stopwatch" where
  "Stopwatch_fire h now s = (if h \<in> set (active (sw_timers s)) then Stopwatch_tick now s else s)"

fun sw_step :: "stopwatch \<Rightarrow> int \<times> sw_event \<Rightarrow> stopwatch" where
  "sw_step s (now, Start) = Stopwatch_start now s"
| "sw_step s (now, Pause) = Stopwatch_pause s"
| "sw_step s (now, Reset) = Stopwatch_reset s"
| "sw_step s (now, Lap) = recordLap s"
| "sw_step s (now, Fire h) = Stopwatch_fire h now s"

definition sw_run :: "(int \<times> sw_event) list \<Rightarrow> stopwatch" where
  "sw_run evs = foldl sw_step Stopwatch_init evs"

section \<open>Countdown timer module\<close>

text \<open>
  The value of an input field is kept as what \<open>parseInt\<close> makes of its text:
  \<open>Some n\<close> for an integer, \<open>None\<close> for \<open>NaN\<close>. \<open>parseInt(v) || 0\<close> is then
  \<open>or_zero\<close> (both \<open>NaN\<close> and 0 are falsy).
\<close>

definition or_zero :: "int option \<Rightarrow> int" where
  "or_zero v = (case v of None \<Rightarrow> 0 | Some n \<Rightarrow> n)"

datatype display_class = Plain | Warning | Danger

text \<open>
  The closure variables, the host's scheduler, the three input fields, and what the module
  writes to the page: the text of the display, its colour class, the \<open>disabled\<close> flags,
  whether the overlay carries the class \<open>hidden\<close>, and the calls of \<open>playBeep(800, 0.5)\<close>
  requested so far, each with the delay in milliseconds after which it is made (0 for the
  direct call, the \<open>setTimeout\<close> delay otherwise).
\<close>

record timer =
  tm_isRunning :: bool
  tm_remainingTime :: int
  tm_totalTime :: int
  tm_intervalId :: "nat option"
  tm_endTime :: int
  tm_timers :: scheduler
  hoursInput :: "int option"
  minutesInput :: "int option"
  secondsInput :: "int option"
  tm_display :: string
  tm_display_class :: display_class
  tm_startBtn_disabled :: bool
  tm_pauseBtn_disabled :: bool
  tm_resetBtn_disabled :: bool
  hoursInput_disabled :: bool
  minutesInput_disabled :: bool
  secondsInput_disabled :: bool
  overlay_hidden :: bool
  beeps :: "nat list"

definition getInputTime :: "timer \<Rightarrow> int" where
  "getInputTime s =
     (let hrs = max 0 (or_zero (hoursInput s));
          mins = max 0 (min 59 (or_zero (minutesInput s)));
          secs = max 0 (min 59 (or_zero (secondsInput s)))
      in (hrs * 3600 + mins * 60 + secs) * 1000)"

definition Timer_updateDisplay :: "timer \<Rightarrow> timer" where
  "Timer_updateDisplay s =
     (let time = formatTime (tm_remainingTime s) False
      in s\<lparr>tm_display := hours time @ '':'' @ minutes time @ '':'' @ seconds time,
           tm_display_class :=
             (if tm_remainingTime s \<le> 10000 \<and> tm_remainingTime s > 0 then Danger
              else if tm_remainingTime s \<le> 30000 \<and> tm_remainingTime s > 0 then Warning
              else Plain)\<rparr>)"

definition Timer_updateButtons :: "timer \<Rightarrow> timer" where
  "Timer_updateButtons s =
     (let hasTime = (tm_remainingTime s > 0 \<or> getInputTime s > 0)
      in s\<lparr>tm_startBtn_disabled := (tm_isRunning s \<or> \<not> hasTime),
           tm_pauseBtn_disabled := \<not> tm_isRunning s,
           tm_resetBtn_disabled :=
             (\<not> tm_isRunning s \<and> tm_remainingTime s = tm_totalTime s
              \<and> tm_totalTime s = getInputTime s),
           hoursInput_disabled := tm_isRunning s,
           minutesInput_disabled := tm_isRunning s,
           secondsInput_disabled := tm_isRunning s\<rparr>)"

definition updateDisplayFromInputs :: "timer \<Rightarrow> timer" where
  "updateDisplayFromInputs s =
     (if \<not> tm_isRunning s
      then Timer_updateButtons (Timer_updateDisplay
             (s\<lparr>tm_remainingTime := getInputTime s, tm_totalTime := getInputTime s\<rparr>))
      else s)"

text \<open>\<open>validateInput\<close> on the value of one field: the clamped number is written back.\<close>

definition validateInput :: "int option \<Rightarrow> int \<Rightarrow> int \<Rightarrow> int option" where
  "validateInput v lo hi = Some (max lo (min hi (or_zero v)))"

definition showComplete :: "timer \<Rightarrow> timer" where
  "showComplete s = s\<lparr>overlay_hidden := False, beeps := beeps s @ [0, 300, 600]\<rparr>"

definition hideComplete :: "timer \<Rightarrow> timer" where
  "hideComplete s = s\<lparr>overlay_hidden := True\<rparr>"

definition Timer_pause :: "timer \<Rightarrow> timer" where
  "Timer_pause s =
     (if \<not> tm_isRunning s then s
      else Timer_updateButtons
             (s\<lparr>tm_isRunning := False,
                tm_timers := clearInterval (tm_intervalId s) (tm_timers s),
                tm_intervalId := None\<rparr>))"

definition Timer_reset :: "timer \<Rightarrow> timer" where
  "Timer_reset s =
     (let p = Timer_pause s
      in hideComplete (Timer_updateButtons (Timer_updateDisplay
           (p\<lparr>tm_remainingTime := getInputTime p, tm_totalTime := getInputTime p\<rparr>))))"

definition complete :: "timer \<Rightarrow> timer" where
  "complete s =
     showComplete (Timer_updateButtons (Timer_updateDisplay
       ((Timer_pause s)\<lparr>tm_remainingTime := 0\<rparr>)))"

text \<open>The callback given to \<open>setInterval\<close>.\<close>

definition Timer_tick :: "int \<Rightarrow> timer \<Rightarrow> timer" where
  "Timer_tick now s =
     (let s1 = Timer_updateDisplay (s\<lparr>tm_remainingTime := max 0 (tm_endTime s - now)\<rparr>)
      in if tm_remainingTime s1 \<le> 0 then complete s1 else s1)"

definition Timer_start :: "int \<Rightarrow> timer \<Rightarrow> timer" where
  "Timer_start now s =
     (if tm_isRunning s then s
      else let s1 = (if tm_remainingTime s = 0
                     then s\<lparr>tm_remainingTime := getInputTime s, tm_totalTime := getInputTime s\<rparr>
                     else s)
           in if tm_remainingTime s1 \<le> 0 then s1
              else let (h, sch) = setInterval (tm_timers s1)
                   in Timer_updateButtons
                        (s1\<lparr>tm_isRunning := True,
                            tm_endTime := now + tm_remainingTime s1,
                            tm_intervalId := Some h,
                            tm_timers := sch\<rparr>))"

text \<open>
  The module before \<open>init\<close> has run, for given contents of the three input fields (the
  page itself is not part of the sources; its overlay is taken to start hidden), and
  \<open>init\<close>.
\<close>

definition timer_vars :: "int option \<Rightarrow> int option \<Rightarrow> int option \<Rightarrow> timer" where
  "timer_vars h m sec =
     \<lparr>tm_isRunning = False, tm_remainingTime = 0, tm_totalTime = 0, tm_intervalId = None,
      tm_endTime = 0, tm_timers = no_timers,
      hoursInput = h, minutesInput = m, secondsInput = sec,
      tm_display = [], tm_display_class = Plain,
      tm_startBtn_disabled = False, tm_pauseBtn_disabled = False,
      tm_resetBtn_disabled = False, hoursInput_disabled = False,
      minutesInput_disabled = False, secondsInput_disabled = False,
      overlay_hidden = True, beeps = []\<rparr>"

definition Timer_init :: "int option \<Rightarrow> int option \<Rightarrow> int option \<Rightarrow> timer" where
  "Timer_init h m sec = Timer_updateButtons (updateDisplayFromInputs (timer_vars h m sec))"

text \<open>
  What can happen to the timer: a click on Start, Pause, Reset or Dismiss, an \<open>input\<close>
  event on one of the fields after its text became something \<open>parseInt\<close> reads as
  \<open>v\<close>, or the host firing the interval with handle \<open>h\<close>. A field that
  \<open>updateButtons\<close> has disabled cannot be edited, so the page delivers no \<open>input\<close>
  event for it.
\<close>

datatype tm_event =
  TStart | TPause | TReset | Dismiss
  | HoursIn "int option" | MinutesIn "int option" | SecondsIn "int option"
  | TFire nat

definition Timer_fire :: "nat \<Rightarrow> int \<Rightarrow> timer \<Rightarrow> timer" where
  "Timer_fire h now s = (if h \<in> set (active (tm_timers s)) then Timer_tick now s else s)"

fun tm_step :: "timer \<Rightarrow> int \<times> tm_event \<Rightarrow> timer" where
  "tm_step s (now, TStart) = Timer_start now s"
| "tm_step s (now, TPause) = Timer_pause s"
| "tm_step s (now, TReset) = Timer_reset s"
| "tm_step s (now, Dismiss) = Timer_reset (hideComplete s)"
| "tm_step s (now, HoursIn v) =
     (if hoursInput_disabled s then s
      else updateDisplayFromInputs (s\<lparr>hoursInput := validateInput v 0 99\<rparr>))"
| "tm_step s (now, MinutesIn v) =
     (if minutesInput_disabled s then s
      else updateDisplayFromInputs (s\<lparr>minutesInput := validateInput v 0 59\<rparr>))"
| "tm_step s (now, SecondsIn v) =
     (if secondsInput_disabled s then s
      else updateDisplayFromInputs (s\<lparr>secondsInput := validateInput v 0 59\<rparr>))"
| "tm_step s (now, TFire h) = Timer_fire h now s"

definition tm_run :: "int option \<Rightarrow> int option \<Rightarrow> int option \<Rightarrow> (int \<times> tm_event) list \<Rightarrow> timer" where
  "tm_run h m sec evs = foldl tm_step (Timer_init h m sec) evs"

text \<open>The interval firing at the instants \<open>ts\<close>, one after the other, and nothing else.\<close>

definition Timer_fires :: "nat \<Rightarrow> int list \<Rightarrow> timer \<Rightarrow> timer" where
  "Timer_fires h ts s = foldl (\<lambda>s' now. Timer_fire h now s') s ts"

section \<open>Predicates used in the statements\<close>

text \<open>
  The scheduler holds exactly the interval the stopwatch remembers while it runs, and none
  while it does not.
\<close>

definition sw_wf :: "stopwatch \<Rightarrow> bool" where
  "sw_wf s =
     (if sw_isRunning s
      then (case sw_intervalId s of None \<Rightarrow> False | Some h \<Rightarrow> active (sw_timers s) = [h])
      else active (sw_timers s) = [])"

text \<open>Every lap's difference is its total minus the total of the lap before it (0 for the first).\<close>

definition lap_deltas :: "lap list \<Rightarrow> bool" where
  "lap_deltas ls =
     (\<forall>i < length ls.
        lap_diff (ls ! i) = lap_total (ls ! i) - (if i > 0 then lap_total (ls ! (i - 1)) else 0))"

text \<open>
  What holds of the stopwatch at clock reading \<open>t\<close>: the elapsed time never runs ahead of
  the clock, no lap lies beyond the elapsed time, and the lap totals are in order.
\<close>

definition sw_inv :: "int \<Rightarrow> stopwatch \<Rightarrow> bool" where
  "sw_inv t s =
     (sw_wf s
      \<and> (sw_isRunning s \<longrightarrow> sw_startTime s + sw_elapsedTime s \<le> t)
      \<and> (\<forall>l \<in> set (sw_laps s). lap_total l \<le> sw_elapsedTime s)
      \<and> sorted (map lap_total (sw_laps s)))"

text \<open>
  What \<open>start()\<close> counts down from: the configured duration when nothing remains, the
  remaining time of the paused run otherwise.
\<close>

definition run_length :: "timer \<Rightarrow> int" where
  "run_length s = (if tm_remainingTime s = 0 then getInputTime s else tm_remainingTime s)"

text \<open>
  A countdown in progress towards the end instant \<open>e\<close> on interval \<open>h\<close>, with the beeps
  \<open>b\<close> requested so far; and a countdown that has completed: paused, nothing remaining,
  interval \<open>h\<close> cancelled, overlay shown, and exactly the three beeps added to \<open>b\<close>.
\<close>

definition Timer_counting :: "int \<Rightarrow> nat list \<Rightarrow> nat \<Rightarrow> timer \<Rightarrow> bool" where
  "Timer_counting e b h s =
     (tm_isRunning s \<and> tm_endTime s = e \<and> tm_intervalId s = Some h
      \<and> h \<in> set (active (tm_timers s)) \<and> beeps s = b)"

definition Timer_completed :: "nat list \<Rightarrow> nat \<Rightarrow> timer \<Rightarrow> bool" where
  "Timer_completed b h s =
     (\<not> tm_isRunning s \<and> tm_remainingTime s = 0 \<and> tm_intervalId s = None
      \<and> h \<notin> set (active (tm_timers s)) \<and> \<not> overlay_hidden s
      \<and> beeps s = b @ [0, 300, 600])"

text \<open>
  What holds of the timer in every state of the page: the scheduler holds exactly the
  interval the timer remembers while it runs and none while it does not; the three fields
  are disabled exactly while it runs; the total time is the configured duration; and with a
  total of 0 nothing remains and the timer does not run.
\<close>

definition tm_inv :: "timer \<Rightarrow> bool" where
  "tm_inv s =
     ((if tm_isRunning s
       then (case tm_intervalId s of None \<Rightarrow> False | Some h \<Rightarrow> active (tm_timers s) = [h])
       else active (tm_timers s) = [])
      \<and> hoursInput_disabled s = tm_isRunning s
      \<and> minutesInput_disabled s = tm_isRunning s
      \<and> secondsInput_disabled s = tm_isRunning s
      \<and> tm_totalTime s = getInputTime s
      \<and> (tm_totalTime s = 0 \<longrightarrow> tm_remainingTime s = 0 \<and> \<not> tm_isRunning s))"

text \<open>A session at the stopwatch, used to exercise the statements below.\<close>

definition lap_scenario :: "(int \<times> sw_event) list" where
  "lap_scenario =
     [(0, Start), (1500, Fire 1), (1500, Lap), (4200, Fire 1), (4200, Lap), (4300, Pause),
      (9300, Start), (9800, Fire 2), (9800, Lap), (9805, Lap)]"

section \<open>Time formatting: the components and their rendering\<close>

subsection \<open>Decimal digits\<close>

lemma digit_val_digit_char: "d < 10 \<Longrightarrow> digit_val (digit_char d) = d"
proof -
  assume "d < 10"
  then have "d \<in> {0,1,2,3,4,5,6,7,8,9}" by auto
  then show ?thesis by (auto simp: digit_val_def digit_char_def)
qed

lemma digit_char_is_digit: "d < 10 \<Longrightarrow> digit_char d \<in> set ''0123456789''"
  unfolding digit_char_def by (rule nth_mem) simp

lemma dec_value_snoc: "dec_value (s @ [c]) = 10 * dec_value s + digit_val c"
  by (simp add: dec_value_def)

lemma dec_value_nat_digits: "dec_value (nat_digits n) = n"
proof (induction n rule: nat_digits.induct)
  case (1 n)
  show ?case
  proof (cases "n < 10")
    case True
    then show ?thesis
      by (subst nat_digits.simps) (simp add: dec_value_def digit_val_digit_char)
  next
    case False
    then have "dec_value (nat_digits n) =
        10 * dec_value (nat_digits (n div 10)) + digit_val (digit_char (n mod 10))"
      by (subst nat_digits.simps) (simp add: dec_value_snoc)
    with False 1 show ?thesis by (simp add: digit_val_digit_char)
  qed
qed

lemma nat_digits_are_digits: "set (nat_digits n) \<subseteq> set ''0123456789''"
proof (induction n rule: nat_digits.induct)
  case (1 n)
  show ?case
  proof (cases "n < 10")
    case True
    then show ?thesis
      using digit_char_is_digit [of n] by (subst nat_digits.simps) simp
  next
    case False
    then show ?thesis
      using 1 digit_char_is_digit [of "n mod 10"] by (subst nat_digits.simps) simp
  qed
qed

lemma nat_digits_nonempty: "nat_digits n \<noteq> []"
  by (subst nat_digits.simps) simp

lemma length_nat_digits_pos: "0 < length (nat_digits n)"
  by (simp add: nat_digits_nonempty)

lemma length_nat_digits_1: "n < 10 \<Longrightarrow> length (nat_digits n) = 1"
  by (subst nat_digits.simps) simp

lemma length_nat_digits_2: "10 \<le> n \<Longrightarrow> n < 100 \<Longrightarrow> length (nat_digits n) = 2"
  by (subst nat_digits.simps) (simp add: length_nat_digits_1)

lemma length_nat_digits_3: "100 \<le> n \<Longrightarrow> 2 < length (nat_digits n)"
proof -
  assume n: "100 \<le> n"
  then have "10 \<le> n div 10" by simp
  then have "1 < length (nat_digits (n div 10))"
    using length_nat_digits_pos [of "n div 10 div 10"]
    by (subst nat_digits.simps) simp
  with n show ?thesis by (subst nat_digits.simps) simp
qed

subsection \<open>Padding to two characters\<close>

lemma padStart_2_long: "2 \<le> length s \<Longrightarrow> padStart 2 ''0'' s = s"
  by (simp add: padStart_def)

lemma padStart_2_single: "length s = 1 \<Longrightarrow> padStart 2 ''0'' s = CHR ''0'' # s"
  by (simp add: padStart_def)

lemma short_nonempty: "s \<noteq> [] \<Longrightarrow> \<not> 2 \<le> length s \<Longrightarrow> length s = 1"
  by (cases s) (auto simp: not_le less_Suc_eq)

lemma length_padStart_2: "s \<noteq> [] \<Longrightarrow> length (padStart 2 ''0'' s) = max 2 (length s)"
  by (cases "2 \<le> length s") (auto simp add: padStart_2_single padStart_2_long dest: short_nonempty)

lemma dec_value_zero_Cons: "dec_value (CHR ''0'' # s) = dec_value s"
  by (simp add: dec_value_def digit_val_def)

lemma dec_value_padStart_2: "s \<noteq> [] \<Longrightarrow> dec_value (padStart 2 ''0'' s) = dec_value s"
  by (cases "2 \<le> length s")
    (auto simp add: padStart_2_single padStart_2_long dec_value_zero_Cons dest: short_nonempty)

lemma set_padStart_2: "s \<noteq> [] \<Longrightarrow> set (padStart 2 ''0'' s) \<subseteq> insert CHR ''0'' (set s)"
  by (cases "2 \<le> length s")
    (auto simp add: padStart_2_single padStart_2_long dest: short_nonempty)

text \<open>The rendering of one component: \<open>String(n).padStart(2, '0')\<close> for \<open>n \<ge> 0\<close>.\<close>

lemma String_of_nonneg: "0 \<le> i \<Longrightarrow> String_of i = nat_digits (nat i)"
  by (simp add: String_of_def)

lemma length_component:
  "0 \<le> i \<Longrightarrow> length (padStart 2 ''0'' (String_of i)) = max 2 (length (nat_digits (nat i)))"
  by (simp add: String_of_nonneg length_padStart_2 nat_digits_nonempty)

lemma length_component_small:
  assumes "0 \<le> i" "i < 100"
  shows "length (padStart 2 ''0'' (String_of i)) = 2"
proof (cases "i < 10")
  case True
  with assms show ?thesis by (simp add: length_component length_nat_digits_1)
next
  case False
  with assms show ?thesis by (simp add: length_component length_nat_digits_2)
qed

lemma length_component_large:
  assumes "100 \<le> i"
  shows "2 < length (padStart 2 ''0'' (String_of i))"
  using assms length_nat_digits_3 [of "nat i"] by (simp add: length_component)

lemma dec_value_component: "0 \<le> i \<Longrightarrow> dec_value (padStart 2 ''0'' (String_of i)) = nat i"
  by (simp add: String_of_nonneg dec_value_padStart_2 nat_digits_nonempty dec_value_nat_digits)

lemma digits_component:
  assumes "0 \<le> i"
  shows "set (padStart 2 ''0'' (String_of i)) \<subseteq> set ''0123456789''"
proof -
  have "set (padStart 2 ''0'' (nat_digits (nat i))) \<subseteq> insert CHR ''0'' (set (nat_digits (nat i)))"
    by (rule set_padStart_2) (rule nat_digits_nonempty)
  also have "\<dots> \<subseteq> set ''0123456789''"
    using nat_digits_are_digits [of "nat i"] by auto
  finally show ?thesis using assms by (simp add: String_of_nonneg)
qed

subsection \<open>The components\<close>

lemma hours_value: "(t::int) div 1000 div 3600 = t div 3600000"
proof -
  have "t div (1000 * 3600) = t div 1000 div 3600"
    by (rule zdiv_zmult2_eq) simp
  then show ?thesis by simp
qed

lemma hours_formatTime:
  "hours (formatTime ms b) = padStart 2 ''0'' (String_of (max 0 ms div 3600000))"
  by (simp add: formatTime_def Let_def hours_value)

lemma minutes_value:
  assumes "(0::int) \<le> t"
  shows "(t div 1000 mod 3600) div 60 = (t mod 3600000) div 60000"
proof -
  have "t mod 3600000 = t mod (1000 * 3600)" by simp
  also have "\<dots> = 1000 * (t div 1000 mod 3600) + t mod 1000"
    by (rule zmod_zmult2_eq) simp
  finally have "(t mod 3600000) div 60000 = (1000 * (t div 1000 mod 3600) + t mod 1000) div (1000 * 60)"
    by simp
  also have "\<dots> = ((1000 * (t div 1000 mod 3600) + t mod 1000) div 1000) div 60"
    by (rule zdiv_zmult2_eq) simp
  also have "(1000 * (t div 1000 mod 3600) + t mod 1000) div 1000 = t div 1000 mod 3600"
    by simp
  finally show ?thesis by simp
qed

lemma minutes_formatTime:
  "minutes (formatTime ms b) = padStart 2 ''0'' (String_of (max 0 ms mod 3600000 div 60000))"
  by (simp add: formatTime_def Let_def minutes_value)

lemma seconds_formatTime:
  "seconds (formatTime ms b) = padStart 2 ''0'' (String_of (max 0 ms div 1000 mod 60))"
  by (simp add: formatTime_def Let_def)

lemma milliseconds_formatTime:
  "milliseconds (formatTime ms b) = padStart 2 ''0'' (String_of (max 0 ms mod 1000 div 10))"
  by (simp add: formatTime_def Let_def)

lemma dec_value_hours: "dec_value (hours (formatTime ms b)) = nat (max 0 ms div 3600000)"
  unfolding hours_formatTime by (rule dec_value_component) simp

lemma dec_value_minutes:
  "dec_value (minutes (formatTime ms b)) = nat (max 0 ms mod 3600000 div 60000)"
  unfolding minutes_formatTime by (rule dec_value_component) simp

lemma dec_value_seconds: "dec_value (seconds (formatTime ms b)) = nat (max 0 ms div 1000 mod 60)"
  unfolding seconds_formatTime by (rule dec_value_component) simp

lemma dec_value_milliseconds:
  "dec_value (milliseconds (formatTime ms b)) = nat (max 0 ms mod 1000 div 10)"
  unfolding milliseconds_formatTime by (rule dec_value_component) simp

lemma length_minutes: "length (minutes (formatTime ms b)) = 2"
  unfolding minutes_formatTime by (rule length_component_small) simp_all

lemma length_seconds: "length (seconds (formatTime ms b)) = 2"
  unfolding seconds_formatTime by (rule length_component_small) simp_all

lemma length_milliseconds: "length (milliseconds (formatTime ms b)) = 2"
  unfolding milliseconds_formatTime by (rule length_component_small) simp_all

lemma length_hours_ge: "2 \<le> length (hours (formatTime ms b))"
  unfolding hours_formatTime by (simp add: length_component)

lemma length_hours_iff:
  "length (hours (formatTime ms b)) = 2 \<longleftrightarrow> max 0 ms div 3600000 < 100"
proof (cases "max 0 ms div 3600000 < 100")
  case True
  then show ?thesis
    unfolding hours_formatTime by (simp add: length_component_small)
next
  case False
  then have "2 < length (padStart 2 ''0'' (String_of (max 0 ms div 3600000)))"
    by (intro length_component_large) simp
  with False show ?thesis unfolding hours_formatTime by simp
qed

lemma digits_formatTime:
  "set (hours (formatTime ms b)) \<subseteq> set ''0123456789''"
  "set (minutes (formatTime ms b)) \<subseteq> set ''0123456789''"
  "set (seconds (formatTime ms b)) \<subseteq> set ''0123456789''"
  "set (milliseconds (formatTime ms b)) \<subseteq> set ''0123456789''"
  unfolding hours_formatTime minutes_formatTime seconds_formatTime milliseconds_formatTime
  by (rule digits_component, simp)+

text \<open>
  Claim C1, as the code has it. For every integer duration up to \<open>2^53 - 1\<close>, the range
  in which the code's arithmetic is exact, \<open>formatTime\<close> clamps a negative duration to 0
  and splits the clamped duration \<open>t\<close> into hours \<open>t div 3600000\<close> (unbounded), minutes
  \<open>(t mod 3600000) div 60000\<close> below 60, seconds \<open>(t div 1000) mod 60\<close> below 60 and
  hundredths \<open>(t mod 1000) div 10\<close> below 100. Each component is rendered as
  \<open>String(n).padStart(2, '0')\<close>: a string of decimal digits whose value is the component,
  padded with zeros to at least two characters. Minutes, seconds and hundredths always have
  exactly two characters; the hours have two while they are below 100, and more beyond,
  since padding never cuts a string.
\<close>

theorem formatTime_decomposition:
  assumes "ms \<le> MAX_SAFE_INTEGER"
  shows "let t = max 0 ms; p = formatTime ms includeMs in
     hours p = padStart 2 ''0'' (String_of (t div 3600000))
     \<and> minutes p = padStart 2 ''0'' (String_of (t mod 3600000 div 60000))
     \<and> seconds p = padStart 2 ''0'' (String_of (t div 1000 mod 60))
     \<and> milliseconds p = padStart 2 ''0'' (String_of (t mod 1000 div 10))
     \<and> dec_value (hours p) = nat (t div 3600000)
     \<and> dec_value (minutes p) = nat (t mod 3600000 div 60000)
     \<and> dec_value (seconds p) = nat (t div 1000 mod 60)
     \<and> dec_value (milliseconds p) = nat (t mod 1000 div 10)
     \<and> 0 \<le> t div 3600000
     \<and> 0 \<le> t mod 3600000 div 60000 \<and> t mod 3600000 div 60000 < 60
     \<and> 0 \<le> t div 1000 mod 60 \<and> t div 1000 mod 60 < 60
     \<and> 0 \<le> t mod 1000 div 10 \<and> t mod 1000 div 10 < 100
     \<and> set (hours p) \<union> set (minutes p) \<union> set (seconds p) \<union> set (milliseconds p)
           \<subseteq> set ''0123456789''
     \<and> length (minutes p) = 2 \<and> length (seconds p) = 2 \<and> length (milliseconds p) = 2
     \<and> 2 \<le> length (hours p)
     \<and> (t div 3600000 < 100 \<longrightarrow> length (hours p) = 2)"
proof -
  have digits: "set (hours (formatTime ms includeMs)) \<union> set (minutes (formatTime ms includeMs))
      \<union> set (seconds (formatTime ms includeMs)) \<union> set (milliseconds (formatTime ms includeMs))
      \<subseteq> set ''0123456789''"
    using digits_formatTime [of ms includeMs] by blast
  have ranges: "0 \<le> max 0 ms div 3600000"
    "0 \<le> max 0 ms mod 3600000 div 60000" "max 0 ms mod 3600000 div 60000 < 60"
    "0 \<le> max 0 ms div 1000 mod 60" "max 0 ms div 1000 mod 60 < 60"
    "0 \<le> max 0 ms mod 1000 div 10" "max 0 ms mod 1000 div 10 < 100"
    by simp_all
  show ?thesis
    unfolding Let_def
    by (intro conjI impI hours_formatTime minutes_formatTime seconds_formatTime
        milliseconds_formatTime dec_value_hours dec_value_minutes dec_value_seconds
        dec_value_milliseconds ranges digits length_minutes length_seconds
        length_milliseconds length_hours_ge)
      (simp add: length_hours_iff)
qed

text \<open>At 1 h 23 min 45.678 s the four strings read 01, 23, 45 and 67.\<close>

theorem formatTime_decomposition_witness:
  "5025678 \<le> MAX_SAFE_INTEGER
   \<and> hours (formatTime 5025678 True) = ''01'' \<and> minutes (formatTime 5025678 True) = ''23''
   \<and> seconds (formatTime 5025678 True) = ''45'' \<and> milliseconds (formatTime 5025678 True) = ''67''
   \<and> dec_value (hours (formatTime 5025678 True)) = 1
   \<and> dec_value (minutes (formatTime 5025678 True)) = 23
   \<and> dec_value (seconds (formatTime 5025678 True)) = 45
   \<and> dec_value (milliseconds (formatTime 5025678 True)) = 67
   \<and> length (hours (formatTime 5025678 True)) = 2"
proof -
  have r: "padStart 2 ''0'' (String_of 1) = ''01''" "padStart 2 ''0'' (String_of 23) = ''23''"
    "padStart 2 ''0'' (String_of 45) = ''45''" "padStart 2 ''0'' (String_of 67) = ''67''"
    by code_simp+
  show ?thesis
    using formatTime_decomposition [of 5025678 True]
    by (simp add: Let_def r dec_value_def digit_val_def MAX_SAFE_INTEGER_def)
qed

text \<open>
  Claim C1 as it is worded asks for a two-digit, fixed-width string for every component.
  At 100 hours, well within the range of exact arithmetic, the hours string is \<open>100\<close>,
  three characters long.
\<close>

theorem formatTime_hours_three_digits:
  "hours (formatTime 360000000 True) = ''100'' \<and> length (hours (formatTime 360000000 True)) \<noteq> 2"
  by code_simp

text \<open>
  Claim C10. The minutes, seconds and hundredths strings have length exactly 2; the hours
  string has length exactly 2 if and only if the hour count is below 100; from 100 hours
  (360000000 ms) on it is longer than two characters.
\<close>

theorem formatTime_widths:
  "length (minutes (formatTime ms includeMs)) = 2
   \<and> length (seconds (formatTime ms includeMs)) = 2
   \<and> length (milliseconds (formatTime ms includeMs)) = 2
   \<and> (length (hours (formatTime ms includeMs)) = 2 \<longleftrightarrow> max 0 ms div 3600000 < 100)
   \<and> (360000000 \<le> ms \<longrightarrow> 2 < length (hours (formatTime ms includeMs)))"
proof (intro conjI impI length_minutes length_seconds length_milliseconds length_hours_iff)
  assume big: "360000000 \<le> ms"
  then have "\<not> max 0 ms div 3600000 < 100" by simp
  then have "length (hours (formatTime ms includeMs)) \<noteq> 2" by (simp add: length_hours_iff)
  with length_hours_ge [of ms includeMs] show "2 < length (hours (formatTime ms includeMs))"
    by simp
qed

theorem formatTime_widths_witness:
  "(360000000::int) \<le> 360000000 \<and> 2 < length (hours (formatTime 360000000 False))
   \<and> length (minutes (formatTime 360000000 False)) = 2
   \<and> (length (hours (formatTime 359999999 False)) = 2)"
  using formatTime_widths [of 360000000 False] formatTime_widths [of 359999999 False]
  by simp

section \<open>Stopwatch\<close>

lemmas sw_view_defs =
  Stopwatch_updateDisplay_def Stopwatch_updateButtons_def Stopwatch_renderLaps_def

lemmas sw_defs =
  Stopwatch_start_def Stopwatch_pause_def Stopwatch_reset_def recordLap_def
  Stopwatch_tick_def Stopwatch_fire_def setInterval_def clearInterval_def

lemma sw_pause_idem: "Stopwatch_pause (Stopwatch_pause s) = Stopwatch_pause s"
  by (simp add: Stopwatch_pause_def Stopwatch_updateButtons_def)

lemma lap_deltas_Nil: "lap_deltas []"
  by (simp add: lap_deltas_def)

lemma lap_deltas_snoc:
  assumes "lap_deltas ls"
    and "lap_diff x = lap_total x - (if ls = [] then 0 else lap_total (last ls))"
  shows "lap_deltas (ls @ [x])"
  unfolding lap_deltas_def
proof (intro allI impI)
  fix i assume i: "i < length (ls @ [x])"
  show "lap_diff ((ls @ [x]) ! i) =
      lap_total ((ls @ [x]) ! i) - (if 0 < i then lap_total ((ls @ [x]) ! (i - 1)) else 0)"
  proof (cases "i < length ls")
    case True
    then have "i - 1 < length ls" by simp
    with True assms(1) show ?thesis by (simp add: lap_deltas_def nth_append)
  next
    case False
    with i have "i = length ls" by simp
    with assms(2) show ?thesis by (simp add: nth_append last_conv_nth)
  qed
qed

lemma sw_step_deltas: "lap_deltas (sw_laps s) \<Longrightarrow> lap_deltas (sw_laps (sw_step s e))"
proof -
  assume a: "lap_deltas (sw_laps s)"
  obtain now ev where e: "e = (now, ev)" by (cases e)
  show ?thesis
  proof (cases ev)
    case Lap
    show ?thesis
    proof (cases "sw_isRunning s")
      case True
      with a e Lap show ?thesis
        by (simp add: recordLap_def Stopwatch_renderLaps_def Let_def last_conv_nth lap_deltas_snoc)
    next
      case False
      with a e Lap show ?thesis by (simp add: recordLap_def)
    qed
  qed (use a e in \<open>simp_all add: sw_defs sw_view_defs Let_def lap_deltas_Nil\<close>)
qed

lemma sw_run_snoc: "sw_run (evs @ [e]) = sw_step (sw_run evs) e"
  by (simp add: sw_run_def)

lemma sw_run_deltas: "lap_deltas (sw_laps (sw_run evs))"
proof (induction evs rule: rev_induct)
  case Nil
  show ?case by (simp add: sw_run_def Stopwatch_init_def stopwatch_vars_def sw_view_defs Let_def lap_deltas_Nil)
next
  case (snoc e evs)
  then show ?case by (simp add: sw_run_snoc sw_step_deltas)
qed

lemma sw_inv_init: "sw_inv t Stopwatch_init"
  by (simp add: sw_inv_def sw_wf_def Stopwatch_init_def stopwatch_vars_def sw_view_defs
      no_timers_def Let_def)

lemma sw_inv_later: "sw_inv t s \<Longrightarrow> t \<le> t' \<Longrightarrow> sw_inv t' s"
  by (auto simp: sw_inv_def)

lemma sw_inv_start: "sw_inv now s \<Longrightarrow> sw_inv now (Stopwatch_start now s)"
  by (auto simp: sw_inv_def sw_wf_def Stopwatch_start_def setInterval_def sw_view_defs Let_def)

lemma sw_inv_pause: "sw_inv now s \<Longrightarrow> sw_inv now (Stopwatch_pause s)"
  by (auto simp: sw_inv_def sw_wf_def Stopwatch_pause_def clearInterval_def sw_view_defs
      split: option.splits)

lemma sw_inv_reset: "sw_inv now s \<Longrightarrow> sw_inv now (Stopwatch_reset s)"
  by (auto simp: sw_inv_def sw_wf_def Stopwatch_reset_def Stopwatch_pause_def clearInterval_def
      sw_view_defs Let_def split: option.splits)

lemma sw_inv_recordLap: "sw_inv now s \<Longrightarrow> sw_inv now (recordLap s)"
  by (auto simp: sw_inv_def sw_wf_def recordLap_def Stopwatch_renderLaps_def Let_def
      sorted_append split: option.splits)

lemma sw_inv_fire: "sw_inv now s \<Longrightarrow> sw_inv now (Stopwatch_fire h now s)"
proof -
  assume a: "sw_inv now s"
  show ?thesis
  proof (cases "h \<in> set (active (sw_timers s))")
    case False
    with a show ?thesis by (simp add: Stopwatch_fire_def)
  next
    case True
    with a have run: "sw_isRunning s"
      by (auto simp: sw_inv_def sw_wf_def split: if_splits)
    with a have le: "sw_elapsedTime s \<le> now - sw_startTime s"
      by (simp add: sw_inv_def)
    have "\<forall>l \<in> set (sw_laps s). lap_total l \<le> now - sw_startTime s"
      using a le by (force simp: sw_inv_def)
    with a True run show ?thesis
      by (auto simp add: sw_inv_def sw_wf_def Stopwatch_fire_def Stopwatch_tick_def
          Stopwatch_updateDisplay_def Let_def split: option.splits)
  qed
qed

lemma sw_inv_step: "sw_inv now s \<Longrightarrow> sw_inv now (sw_step s (now, ev))"
  by (cases ev) (simp_all add: sw_inv_start sw_inv_pause sw_inv_reset sw_inv_recordLap sw_inv_fire)

lemma sw_run_inv:
  "sorted (map fst evs) \<Longrightarrow> \<forall>x \<in> set evs. fst x \<le> t \<Longrightarrow> sw_inv t (sw_run evs)"
proof (induction evs arbitrary: t rule: rev_induct)
  case Nil
  show ?case by (simp add: sw_run_def sw_inv_init)
next
  case (snoc e evs)
  obtain now ev where e: "e = (now, ev)" by (cases e)
  from snoc.prems(1) have "sorted (map fst evs)" and "\<forall>x \<in> set evs. fst x \<le> now"
    by (auto simp: sorted_append e)
  then have "sw_inv now (sw_run evs)" by (rule snoc.IH)
  then have "sw_inv now (sw_run (evs @ [e]))"
    unfolding sw_run_snoc e by (rule sw_inv_step)
  moreover from snoc.prems(2) have "now \<le> t" by (simp add: e)
  ultimately show ?case by (rule sw_inv_later)
qed


text \<open>
  Claim C7. Whatever the state before (idle, running or paused, with any laps recorded),
  after \<open>reset()\<close> the elapsed time is 0, there are no laps, and the stopwatch is not
  running.
\<close>

theorem Stopwatch_reset_clears:
  "sw_elapsedTime (Stopwatch_reset s) = 0 \<and> sw_laps (Stopwatch_reset s) = []
   \<and> \<not> sw_isRunning (Stopwatch_reset s)"
  by (simp add: Stopwatch_reset_def Stopwatch_pause_def sw_view_defs Let_def)

text \<open>Resetting a running stopwatch that has recorded a lap.\<close>

theorem Stopwatch_reset_clears_witness:
  "sw_isRunning (sw_run [(0, Start), (1500, Fire 1), (1500, Lap)])
   \<and> sw_elapsedTime (sw_run [(0, Start), (1500, Fire 1), (1500, Lap)]) = 1500
   \<and> length (sw_laps (sw_run [(0, Start), (1500, Fire 1), (1500, Lap)])) = 1
   \<and> sw_elapsedTime (Stopwatch_reset (sw_run [(0, Start), (1500, Fire 1), (1500, Lap)])) = 0
   \<and> sw_laps (Stopwatch_reset (sw_run [(0, Start), (1500, Fire 1), (1500, Lap)])) = []
   \<and> \<not> sw_isRunning (Stopwatch_reset (sw_run [(0, Start), (1500, Fire 1), (1500, Lap)]))"
proof -
  have "sw_isRunning (sw_run [(0, Start), (1500, Fire 1), (1500, Lap)])"
    "sw_elapsedTime (sw_run [(0, Start), (1500, Fire 1), (1500, Lap)]) = 1500"
    "length (sw_laps (sw_run [(0, Start), (1500, Fire 1), (1500, Lap)])) = 1"
    by code_simp+
  with Stopwatch_reset_clears [of "sw_run [(0, Start), (1500, Fire 1), (1500, Lap)]"]
  show ?thesis by blast
qed

text \<open>
  Claim C5. \<open>recordLap()\<close> changes nothing when the stopwatch is not running. When it
  runs, exactly one lap is appended to the laps recorded before, which stay as they are:
  its total is the current elapsed time, its difference is the elapsed time minus the last
  lap's total (minus 0 when there is no lap yet), and its number is the previous number of
  laps plus 1. The elapsed time and the running flag stay as they are.
\<close>

theorem recordLap_appends:
  "(\<not> sw_isRunning s \<longrightarrow> recordLap s = s) \<and>
   (sw_isRunning s \<longrightarrow>
      sw_laps (recordLap s) = sw_laps s @
        [\<lparr>lap_number = int (length (sw_laps s)) + 1,
          lap_total = sw_elapsedTime s,
          lap_diff = sw_elapsedTime s
                     - (if sw_laps s = [] then 0 else lap_total (last (sw_laps s)))\<rparr>]
      \<and> sw_elapsedTime (recordLap s) = sw_elapsedTime s
      \<and> sw_isRunning (recordLap s))"
  by (simp add: recordLap_def Stopwatch_renderLaps_def Let_def last_conv_nth)

text \<open>
  The scenario of the specification: started at 0, a lap at 1500 ms and a lap at 4200 ms;
  and a lap requested after a pause, which is not recorded.
\<close>

theorem recordLap_appends_witness:
  "sw_isRunning (sw_run [(0, Start), (1500, Fire 1)])
   \<and> sw_laps (recordLap (sw_run [(0, Start), (1500, Fire 1)]))
       = [\<lparr>lap_number = 1, lap_total = 1500, lap_diff = 1500\<rparr>]
   \<and> sw_isRunning (sw_run [(0, Start), (1500, Fire 1), (1500, Lap), (4200, Fire 1)])
   \<and> sw_laps (recordLap (sw_run [(0, Start), (1500, Fire 1), (1500, Lap), (4200, Fire 1)]))
       = [\<lparr>lap_number = 1, lap_total = 1500, lap_diff = 1500\<rparr>,
          \<lparr>lap_number = 2, lap_total = 4200, lap_diff = 2700\<rparr>]
   \<and> \<not> sw_isRunning (sw_run [(0, Start), (1500, Fire 1), (1600, Pause)])
   \<and> recordLap (sw_run [(0, Start), (1500, Fire 1), (1600, Pause)])
       = sw_run [(0, Start), (1500, Fire 1), (1600, Pause)]"
proof -
  have a: "sw_isRunning (sw_run [(0, Start), (1500, Fire 1)]) = True"
    "sw_laps (sw_run [(0, Start), (1500, Fire 1)]) = []"
    "sw_elapsedTime (sw_run [(0, Start), (1500, Fire 1)]) = 1500"
    by code_simp+
  have b: "sw_isRunning (sw_run [(0, Start), (1500, Fire 1), (1500, Lap), (4200, Fire 1)]) = True"
    "sw_laps (sw_run [(0, Start), (1500, Fire 1), (1500, Lap), (4200, Fire 1)])
       = [\<lparr>lap_number = 1, lap_total = 1500, lap_diff = 1500\<rparr>]"
    "sw_elapsedTime (sw_run [(0, Start), (1500, Fire 1), (1500, Lap), (4200, Fire 1)]) = 4200"
    by code_simp+
  have c: "sw_isRunning (sw_run [(0, Start), (1500, Fire 1), (1600, Pause)]) = False"
    by code_simp
  show ?thesis
    using recordLap_appends [of "sw_run [(0, Start), (1500, Fire 1)]"]
      recordLap_appends [of "sw_run [(0, Start), (1500, Fire 1), (1500, Lap), (4200, Fire 1)]"]
      recordLap_appends [of "sw_run [(0, Start), (1500, Fire 1), (1600, Pause)]"]
    unfolding a b c by simp
qed

text \<open>
  Claim C6. \<open>start()\<close> changes nothing when the stopwatch already runs. Otherwise it
  sets the running flag and the start instant \<open>now - elapsed\<close>, keeps the elapsed time and
  the laps, and schedules the interval; when that interval fires at a later instant, the
  recomputed elapsed time is the elapsed time from before the start plus the time passed
  since the start, so a resumed stopwatch continues from where it was paused.
\<close>

theorem Stopwatch_start_resumes:
  "(sw_isRunning s \<longrightarrow> Stopwatch_start now s = s) \<and>
   (\<not> sw_isRunning s \<longrightarrow>
      sw_isRunning (Stopwatch_start now s) \<and>
      sw_startTime (Stopwatch_start now s) = now - sw_elapsedTime s \<and>
      sw_elapsedTime (Stopwatch_start now s) = sw_elapsedTime s \<and>
      sw_laps (Stopwatch_start now s) = sw_laps s \<and>
      sw_intervalId (Stopwatch_start now s) = Some (next_handle (sw_timers s)) \<and>
      next_handle (sw_timers s) \<in> set (active (sw_timers (Stopwatch_start now s))) \<and>
      sw_elapsedTime (Stopwatch_fire (next_handle (sw_timers s)) later (Stopwatch_start now s))
        = sw_elapsedTime s + (later - now))"
  by (simp add: Stopwatch_start_def Stopwatch_fire_def Stopwatch_tick_def setInterval_def
      sw_view_defs Let_def)

text \<open>
  Paused at 1500 ms and started again when the clock reads 9000: 400 ms later the elapsed
  time is 1900 ms. A second start while running changes nothing.
\<close>

theorem Stopwatch_start_resumes_witness:
  "\<not> sw_isRunning (sw_run [(0, Start), (1500, Fire 1), (1600, Pause)])
   \<and> sw_startTime (Stopwatch_start 9000 (sw_run [(0, Start), (1500, Fire 1), (1600, Pause)])) = 7500
   \<and> sw_elapsedTime (Stopwatch_fire 2 9400
         (Stopwatch_start 9000 (sw_run [(0, Start), (1500, Fire 1), (1600, Pause)]))) = 1900
   \<and> sw_isRunning (sw_run [(0, Start)])
   \<and> Stopwatch_start 700 (sw_run [(0, Start)]) = sw_run [(0, Start)]"
proof -
  have a: "sw_isRunning (sw_run [(0, Start), (1500, Fire 1), (1600, Pause)]) = False"
    "sw_elapsedTime (sw_run [(0, Start), (1500, Fire 1), (1600, Pause)]) = 1500"
    "next_handle (sw_timers (sw_run [(0, Start), (1500, Fire 1), (1600, Pause)])) = 2"
    "sw_isRunning (sw_run [(0, Start)]) = True"
    by code_simp+
  show ?thesis
    using Stopwatch_start_resumes [of "sw_run [(0, Start), (1500, Fire 1), (1600, Pause)]" 9000 9400]
      Stopwatch_start_resumes [of "sw_run [(0, Start)]" 700 800]
    unfolding a by simp
qed

text \<open>
  Claim C4, as the code has it. After every sequence of stopwatch events (clicks on Start,
  Pause, Reset and Lap, and firings of the interval), every lap's difference is its total
  minus the total of the lap before it (minus 0 for the first lap). Provided the readings of
  \<open>Date.now()\<close> do not go backwards along the sequence, the lap totals are non-decreasing
  in the order of recording. Two laps recorded between two firings of the interval have
  equal totals, so the order is not strict.
\<close>

theorem laps_invariant:
  "(\<forall>i < length (sw_laps (sw_run evs)).
       lap_diff (sw_laps (sw_run evs) ! i) =
         lap_total (sw_laps (sw_run evs) ! i)
         - (if i > 0 then lap_total (sw_laps (sw_run evs) ! (i - 1)) else 0))
   \<and> (sorted (map fst evs) \<longrightarrow>
        (\<forall>i j. i \<le> j \<and> j < length (sw_laps (sw_run evs)) \<longrightarrow>
           lap_total (sw_laps (sw_run evs) ! i) \<le> lap_total (sw_laps (sw_run evs) ! j)))"
proof (intro conjI impI allI)
  fix i assume "i < length (sw_laps (sw_run evs))"
  then show "lap_diff (sw_laps (sw_run evs) ! i) =
         lap_total (sw_laps (sw_run evs) ! i)
         - (if i > 0 then lap_total (sw_laps (sw_run evs) ! (i - 1)) else 0)"
    using sw_run_deltas [of evs] by (simp add: lap_deltas_def)
next
  fix i j
  assume mono: "sorted (map fst evs)" and ij: "i \<le> j \<and> j < length (sw_laps (sw_run evs))"
  have "\<forall>x \<in> set evs. fst x \<le> Max (insert 0 (fst ` set evs))"
    by simp
  with mono have "sw_inv (Max (insert 0 (fst ` set evs))) (sw_run evs)" by (rule sw_run_inv)
  then have "sorted (map lap_total (sw_laps (sw_run evs)))" by (simp add: sw_inv_def)
  with ij show "lap_total (sw_laps (sw_run evs) ! i) \<le> lap_total (sw_laps (sw_run evs) ! j)"
    using sorted_nth_mono [of "map lap_total (sw_laps (sw_run evs))" i j] by simp
qed

text \<open>
  Laps at 1500 ms and 4200 ms, a pause, a resumption 5 s later, and two laps recorded in a
  row half a second after that.
\<close>

theorem laps_invariant_witness:
  "sorted (map fst lap_scenario)
   \<and> sw_laps (sw_run lap_scenario)
       = [\<lparr>lap_number = 1, lap_total = 1500, lap_diff = 1500\<rparr>,
          \<lparr>lap_number = 2, lap_total = 4200, lap_diff = 2700\<rparr>,
          \<lparr>lap_number = 3, lap_total = 4700, lap_diff = 500\<rparr>,
          \<lparr>lap_number = 4, lap_total = 4700, lap_diff = 0\<rparr>]
   \<and> lap_total (sw_laps (sw_run lap_scenario) ! 1) \<le> lap_total (sw_laps (sw_run lap_scenario) ! 3)
   \<and> lap_diff (sw_laps (sw_run lap_scenario) ! 2)
       = lap_total (sw_laps (sw_run lap_scenario) ! 2)
         - lap_total (sw_laps (sw_run lap_scenario) ! (2 - 1))"
proof -
  have m: "sorted (map fst lap_scenario)"
    by (simp add: lap_scenario_def)
  have l: "sw_laps (sw_run lap_scenario)
       = [\<lparr>lap_number = 1, lap_total = 1500, lap_diff = 1500\<rparr>,
          \<lparr>lap_number = 2, lap_total = 4200, lap_diff = 2700\<rparr>,
          \<lparr>lap_number = 3, lap_total = 4700, lap_diff = 500\<rparr>,
          \<lparr>lap_number = 4, lap_total = 4700, lap_diff = 0\<rparr>]"
    by code_simp
  have n: "length (sw_laps (sw_run lap_scenario)) = 4"
    unfolding l by simp
  note inv = laps_invariant [of lap_scenario]
  from inv n have d: "lap_diff (sw_laps (sw_run lap_scenario) ! 2)
       = lap_total (sw_laps (sw_run lap_scenario) ! 2)
         - lap_total (sw_laps (sw_run lap_scenario) ! (2 - 1))"
    by (simp del: One_nat_def)
  from inv m have "(1::nat) \<le> 3 \<and> 3 < length (sw_laps (sw_run lap_scenario)) \<longrightarrow>
      lap_total (sw_laps (sw_run lap_scenario) ! 1) \<le> lap_total (sw_laps (sw_run lap_scenario) ! 3)"
    by blast
  with n have "lap_total (sw_laps (sw_run lap_scenario) ! 1)
      \<le> lap_total (sw_laps (sw_run lap_scenario) ! 3)"
    by simp
  with m l d show ?thesis by (intro conjI)
qed

text \<open>
  Claim C4 as it is worded has the totals non-decreasing after every sequence of
  operations. The stopwatch reads \<open>Date.now()\<close>, the wall clock, which can be set back:
  with a first lap at 5000 ms and the clock two seconds earlier at the next firing of the
  interval, the second lap has the total 3000 ms.
\<close>

theorem laps_total_decreases_when_clock_set_back:
  "sw_laps (sw_run [(0, Start), (5000, Fire 1), (5000, Lap), (3000, Fire 1), (3000, Lap)])
     = [\<lparr>lap_number = 1, lap_total = 5000, lap_diff = 5000\<rparr>,
        \<lparr>lap_number = 2, lap_total = 3000, lap_diff = - 2000\<rparr>]
   \<and> \<not> lap_total (sw_laps (sw_run
           [(0, Start), (5000, Fire 1), (5000, Lap), (3000, Fire 1), (3000, Lap)]) ! 0)
       \<le> lap_total (sw_laps (sw_run
           [(0, Start), (5000, Fire 1), (5000, Lap), (3000, Fire 1), (3000, Lap)]) ! 1)"
proof -
  have l: "sw_laps (sw_run [(0, Start), (5000, Fire 1), (5000, Lap), (3000, Fire 1), (3000, Lap)])
     = [\<lparr>lap_number = 1, lap_total = 5000, lap_diff = 5000\<rparr>,
        \<lparr>lap_number = 2, lap_total = 3000, lap_diff = - 2000\<rparr>]"
    by code_simp
  show ?thesis unfolding l by simp
qed

section \<open>Countdown timer\<close>

lemmas tm_view_defs =
  Timer_updateDisplay_def Timer_updateButtons_def showComplete_def hideComplete_def

lemma getInputTime_nonneg: "0 \<le> getInputTime s"
  by (simp add: getInputTime_def Let_def)

lemma getInputTime_cong:
  "hoursInput s' = hoursInput s \<Longrightarrow> minutesInput s' = minutesInput s \<Longrightarrow>
   secondsInput s' = secondsInput s \<Longrightarrow> getInputTime s' = getInputTime s"
  by (simp add: getInputTime_def)

lemma getInputTime_updateDisplay [simp]: "getInputTime (Timer_updateDisplay s) = getInputTime s"
  by (rule getInputTime_cong) (simp_all add: Timer_updateDisplay_def Let_def)

lemma getInputTime_updateButtons [simp]: "getInputTime (Timer_updateButtons s) = getInputTime s"
  by (rule getInputTime_cong) (simp_all add: Timer_updateButtons_def Let_def)

lemma getInputTime_pause [simp]: "getInputTime (Timer_pause s) = getInputTime s"
  by (rule getInputTime_cong) (simp_all add: Timer_pause_def Timer_updateButtons_def Let_def)

lemma remaining_view [simp]:
  "tm_remainingTime (Timer_updateDisplay s) = tm_remainingTime s"
  "tm_remainingTime (Timer_updateButtons s) = tm_remainingTime s"
  "tm_remainingTime (showComplete s) = tm_remainingTime s"
  "tm_remainingTime (hideComplete s) = tm_remainingTime s"
  "tm_remainingTime (Timer_pause s) = tm_remainingTime s"
  by (simp_all add: Timer_pause_def tm_view_defs Let_def)

lemma tm_pause_idem: "Timer_pause (Timer_pause s) = Timer_pause s"
  by (simp add: Timer_pause_def Timer_updateButtons_def Let_def)

lemma remaining_complete: "tm_remainingTime (complete s) = 0"
  by (simp add: complete_def)

lemma remaining_reset: "0 \<le> tm_remainingTime (Timer_reset s)"
  by (simp add: Timer_reset_def Let_def getInputTime_nonneg)

lemma remaining_start: "0 \<le> tm_remainingTime s \<Longrightarrow> 0 \<le> tm_remainingTime (Timer_start now s)"
  using getInputTime_nonneg [of s]
  by (auto simp add: Timer_start_def Let_def split_def Timer_updateButtons_def)

lemma remaining_tick: "0 \<le> tm_remainingTime (Timer_tick now s)"
  by (simp add: Timer_tick_def Let_def remaining_complete)

lemma remaining_inputs:
  "0 \<le> tm_remainingTime s \<Longrightarrow> 0 \<le> tm_remainingTime (updateDisplayFromInputs s)"
  by (simp add: updateDisplayFromInputs_def getInputTime_nonneg)

lemma remaining_step: "0 \<le> tm_remainingTime s \<Longrightarrow> 0 \<le> tm_remainingTime (tm_step s e)"
proof -
  assume a: "0 \<le> tm_remainingTime s"
  obtain now ev where e: "e = (now, ev)" by (cases e)
  show ?thesis unfolding e using a
    by (cases ev)
      (simp_all add: remaining_start remaining_reset remaining_inputs remaining_tick
        Timer_fire_def)
qed

lemma tm_run_snoc: "tm_run h m sec (evs @ [e]) = tm_step (tm_run h m sec evs) e"
  by (simp add: tm_run_def)

subsection \<open>The states of the page\<close>

lemma getInputTime_fields [simp]:
  "getInputTime (s\<lparr>tm_remainingTime := a\<rparr>) = getInputTime s"
  "getInputTime (s\<lparr>tm_totalTime := b\<rparr>) = getInputTime s"
  "getInputTime (s\<lparr>tm_isRunning := c\<rparr>) = getInputTime s"
  "getInputTime (s\<lparr>tm_endTime := d\<rparr>) = getInputTime s"
  "getInputTime (s\<lparr>tm_intervalId := e\<rparr>) = getInputTime s"
  "getInputTime (s\<lparr>tm_timers := f\<rparr>) = getInputTime s"
  "getInputTime (showComplete s) = getInputTime s"
  "getInputTime (hideComplete s) = getInputTime s"
  by (rule getInputTime_cong, simp_all add: showComplete_def hideComplete_def)+

lemma updateDisplay_fields [simp]:
  "tm_isRunning (Timer_updateDisplay s) = tm_isRunning s"
  "tm_totalTime (Timer_updateDisplay s) = tm_totalTime s"
  "tm_intervalId (Timer_updateDisplay s) = tm_intervalId s"
  "tm_timers (Timer_updateDisplay s) = tm_timers s"
  "tm_endTime (Timer_updateDisplay s) = tm_endTime s"
  "hoursInput_disabled (Timer_updateDisplay s) = hoursInput_disabled s"
  "minutesInput_disabled (Timer_updateDisplay s) = minutesInput_disabled s"
  "secondsInput_disabled (Timer_updateDisplay s) = secondsInput_disabled s"
  by (simp_all add: Timer_updateDisplay_def Let_def)

lemma updateButtons_fields [simp]:
  "tm_isRunning (Timer_updateButtons s) = tm_isRunning s"
  "tm_totalTime (Timer_updateButtons s) = tm_totalTime s"
  "tm_intervalId (Timer_updateButtons s) = tm_intervalId s"
  "tm_timers (Timer_updateButtons s) = tm_timers s"
  "tm_endTime (Timer_updateButtons s) = tm_endTime s"
  "hoursInput_disabled (Timer_updateButtons s) = tm_isRunning s"
  "minutesInput_disabled (Timer_updateButtons s) = tm_isRunning s"
  "secondsInput_disabled (Timer_updateButtons s) = tm_isRunning s"
  by (simp_all add: Timer_updateButtons_def Let_def)

lemma overlay_fields [simp]:
  "tm_isRunning (showComplete s) = tm_isRunning s"
  "tm_totalTime (showComplete s) = tm_totalTime s"
  "tm_intervalId (showComplete s) = tm_intervalId s"
  "tm_timers (showComplete s) = tm_timers s"
  "hoursInput_disabled (showComplete s) = hoursInput_disabled s"
  "minutesInput_disabled (showComplete s) = minutesInput_disabled s"
  "secondsInput_disabled (showComplete s) = secondsInput_disabled s"
  "tm_isRunning (hideComplete s) = tm_isRunning s"
  "tm_totalTime (hideComplete s) = tm_totalTime s"
  "tm_intervalId (hideComplete s) = tm_intervalId s"
  "tm_timers (hideComplete s) = tm_timers s"
  "hoursInput_disabled (hideComplete s) = hoursInput_disabled s"
  "minutesInput_disabled (hideComplete s) = minutesInput_disabled s"
  "secondsInput_disabled (hideComplete s) = secondsInput_disabled s"
  by (simp_all add: showComplete_def hideComplete_def)

lemma tm_inv_pause: "tm_inv s \<Longrightarrow> tm_inv (Timer_pause s)"
  by (auto simp: tm_inv_def Timer_pause_def clearInterval_def split: option.splits)

lemma tm_inv_hideComplete: "tm_inv s \<Longrightarrow> tm_inv (hideComplete s)"
  by (auto simp: tm_inv_def split: option.splits)

lemma tm_inv_reset: "tm_inv s \<Longrightarrow> tm_inv (Timer_reset s)"
proof -
  assume "tm_inv s"
  then have p: "tm_inv (Timer_pause s)" by (rule tm_inv_pause)
  have n: "\<not> tm_isRunning (Timer_pause s)"
    by (simp add: Timer_pause_def)
  from p n show ?thesis
    by (simp add: tm_inv_def Timer_reset_def Let_def)
qed

lemma tm_inv_start: "tm_inv s \<Longrightarrow> tm_inv (Timer_start now s)"
proof -
  assume a: "tm_inv s"
  show ?thesis
  proof (cases "tm_isRunning s")
    case True
    with a show ?thesis by (simp add: Timer_start_def)
  next
    case False
    note idle = this
    show ?thesis
    proof (cases "tm_remainingTime s = 0")
      case True
      with a idle getInputTime_nonneg [of s] show ?thesis
        by (auto simp: tm_inv_def Timer_start_def Let_def setInterval_def)
    next
      case False
      with a idle show ?thesis
        by (auto simp: tm_inv_def Timer_start_def Let_def setInterval_def)
    qed
  qed
qed

lemma tm_inv_complete: "tm_inv s \<Longrightarrow> tm_inv (complete s)"
proof -
  assume "tm_inv s"
  then have p: "tm_inv (Timer_pause s)" by (rule tm_inv_pause)
  have n: "\<not> tm_isRunning (Timer_pause s)"
    by (simp add: Timer_pause_def)
  from p n show ?thesis
    by (simp add: tm_inv_def complete_def)
qed

lemma tm_inv_remaining:
  "tm_inv s \<Longrightarrow> tm_isRunning s \<Longrightarrow> tm_inv (Timer_updateDisplay (s\<lparr>tm_remainingTime := r\<rparr>))"
  by (auto simp: tm_inv_def split: option.splits)

lemma tm_inv_fire: "tm_inv s \<Longrightarrow> tm_inv (Timer_fire h now s)"
proof -
  assume a: "tm_inv s"
  show ?thesis
  proof (cases "h \<in> set (active (tm_timers s))")
    case False
    with a show ?thesis by (simp add: Timer_fire_def)
  next
    case True
    with a have run: "tm_isRunning s"
      by (auto simp: tm_inv_def split: if_splits)
    let ?s1 = "Timer_updateDisplay (s\<lparr>tm_remainingTime := max 0 (tm_endTime s - now)\<rparr>)"
    from a run have s1: "tm_inv ?s1"
      by (rule tm_inv_remaining)
    then have c: "tm_inv (complete ?s1)"
      by (rule tm_inv_complete)
    from True have "Timer_fire h now s = (if tm_remainingTime ?s1 \<le> 0 then complete ?s1 else ?s1)"
      by (simp only: Timer_fire_def Timer_tick_def Let_def if_True)
    with s1 c show ?thesis
      by (cases "tm_remainingTime ?s1 \<le> 0") (simp_all only: if_True if_False)
  qed
qed

lemma tm_inv_inputs:
  assumes "tm_inv s" and "\<not> tm_isRunning s"
    and "tm_isRunning s' = tm_isRunning s" and "tm_intervalId s' = tm_intervalId s"
    and "tm_timers s' = tm_timers s"
  shows "tm_inv (updateDisplayFromInputs s')"
  using assms by (simp add: tm_inv_def updateDisplayFromInputs_def)

lemma tm_inv_step: "tm_inv s \<Longrightarrow> tm_inv (tm_step s e)"
proof -
  assume a: "tm_inv s"
  obtain now ev where e: "e = (now, ev)" by (cases e)
  show ?thesis
  proof (cases ev)
    case (HoursIn v)
    show ?thesis
    proof (cases "hoursInput_disabled s")
      case True
      with a e HoursIn show ?thesis by simp
    next
      case False
      with a have "\<not> tm_isRunning s" by (simp add: tm_inv_def)
      with a have "tm_inv (updateDisplayFromInputs (s\<lparr>hoursInput := validateInput v 0 99\<rparr>))"
        by (rule tm_inv_inputs) simp_all
      with False e HoursIn show ?thesis by simp
    qed
  next
    case (MinutesIn v)
    show ?thesis
    proof (cases "minutesInput_disabled s")
      case True
      with a e MinutesIn show ?thesis by simp
    next
      case False
      with a have "\<not> tm_isRunning s" by (simp add: tm_inv_def)
      with a have "tm_inv (updateDisplayFromInputs (s\<lparr>minutesInput := validateInput v 0 59\<rparr>))"
        by (rule tm_inv_inputs) simp_all
      with False e MinutesIn show ?thesis by simp
    qed
  next
    case (SecondsIn v)
    show ?thesis
    proof (cases "secondsInput_disabled s")
      case True
      with a e SecondsIn show ?thesis by simp
    next
      case False
      with a have "\<not> tm_isRunning s" by (simp add: tm_inv_def)
      with a have "tm_inv (updateDisplayFromInputs (s\<lparr>secondsInput := validateInput v 0 59\<rparr>))"
        by (rule tm_inv_inputs) simp_all
      with False e SecondsIn show ?thesis by simp
    qed
  qed (use a e in \<open>simp_all add: tm_inv_start tm_inv_pause tm_inv_reset tm_inv_hideComplete
        tm_inv_fire\<close>)
qed

lemma tm_inv_init: "tm_inv (Timer_init h m sec)"
proof -
  have v: "\<not> tm_isRunning (timer_vars h m sec)" "tm_intervalId (timer_vars h m sec) = None"
    "active (tm_timers (timer_vars h m sec)) = []"
    by (simp_all add: timer_vars_def no_timers_def)
  then show ?thesis
    by (simp add: tm_inv_def Timer_init_def updateDisplayFromInputs_def)
qed

lemma tm_run_inv: "tm_inv (tm_run h m sec evs)"
proof (induction evs rule: rev_induct)
  case Nil
  show ?case by (simp add: tm_run_def tm_inv_init)
next
  case (snoc e evs)
  then show ?case unfolding tm_run_snoc by (rule tm_inv_step)
qed

lemma unchanged_when_zero:
  "tm_remainingTime s = 0 \<Longrightarrow> tm_totalTime s = 0 \<Longrightarrow>
     s\<lparr>tm_remainingTime := 0, tm_totalTime := 0\<rparr> = s"
  by (cases s) simp

text \<open>
  Claim C9. For both machines, \<open>pause()\<close> after \<open>pause()\<close> leaves the state exactly as
  the first call left it: after the first call the machine is not running, and a call on a
  machine that is not running returns at its guard with every field as it was.
\<close>

theorem pause_idempotent:
  "Stopwatch_pause (Stopwatch_pause s) = Stopwatch_pause s
   \<and> \<not> sw_isRunning (Stopwatch_pause s)
   \<and> (\<not> sw_isRunning s \<longrightarrow> Stopwatch_pause s = s)
   \<and> Timer_pause (Timer_pause t) = Timer_pause t
   \<and> \<not> tm_isRunning (Timer_pause t)
   \<and> (\<not> tm_isRunning t \<longrightarrow> Timer_pause t = t)"
  by (simp add: sw_pause_idem tm_pause_idem Stopwatch_pause_def Timer_pause_def
      Stopwatch_updateButtons_def Timer_updateButtons_def Let_def)

text \<open>Pausing a running stopwatch and a running timer twice.\<close>

theorem pause_idempotent_witness:
  "sw_isRunning (sw_run [(0, Start)])
   \<and> Stopwatch_pause (Stopwatch_pause (sw_run [(0, Start)])) = Stopwatch_pause (sw_run [(0, Start)])
   \<and> tm_isRunning (tm_run (Some 0) (Some 0) (Some 5) [(0, TStart)])
   \<and> Timer_pause (Timer_pause (tm_run (Some 0) (Some 0) (Some 5) [(0, TStart)]))
       = Timer_pause (tm_run (Some 0) (Some 0) (Some 5) [(0, TStart)])"
proof -
  have "sw_isRunning (sw_run [(0, Start)])"
    "tm_isRunning (tm_run (Some 0) (Some 0) (Some 5) [(0, TStart)])"
    by code_simp+
  with pause_idempotent [of "sw_run [(0, Start)]" "tm_run (Some 0) (Some 0) (Some 5) [(0, TStart)]"]
  show ?thesis by blast
qed

text \<open>
  Claim C8. In every state the timer reaches from its initial state, whatever the input
  fields hold and whatever is done (clicks on Start, Pause, Reset and Dismiss, edits of the
  fields, firings of the interval, with completion inside them), the remaining time is not
  negative.
\<close>

theorem remaining_nonneg: "0 \<le> tm_remainingTime (tm_run h m sec evs)"
proof (induction evs rule: rev_induct)
  case Nil
  show ?case
    by (simp add: tm_run_def Timer_init_def updateDisplayFromInputs_def timer_vars_def
        getInputTime_nonneg)
next
  case (snoc e evs)
  then show ?case unfolding tm_run_snoc by (rule remaining_step)
qed

text \<open>
  Negative field contents, and an interval that fires 3 ms after the end instant: the
  remaining time is 0, not -3.
\<close>

theorem remaining_nonneg_witness:
  "tm_endTime (tm_run (Some (- 4)) (Some 0) (Some 5) [(0, TStart), (5003, TFire 1)]) - 5003 = - 3
   \<and> 0 \<le> tm_remainingTime (tm_run (Some (- 4)) (Some 0) (Some 5) [(0, TStart), (5003, TFire 1)])"
proof -
  have "tm_endTime (tm_run (Some (- 4)) (Some 0) (Some 5) [(0, TStart), (5003, TFire 1)]) - 5003
      = - 3"
    by code_simp
  with remaining_nonneg [of "Some (- 4)" "Some 0" "Some 5" "[(0, TStart), (5003, TFire 1)]"]
  show ?thesis by (intro conjI)
qed

text \<open>
  Claim C3. The configured duration is never negative. In every state of the page, reached
  from the initial state by clicks on Start, Pause, Reset and Dismiss, edits of fields that
  are not disabled, and firings of the interval: when the configured duration is 0,
  \<open>start()\<close> changes nothing at all. The timer does not start running and no interval is
  scheduled.
\<close>

theorem Timer_start_declines:
  assumes "getInputTime (tm_run h m sec evs) = 0"
  shows "Timer_start now (tm_run h m sec evs) = tm_run h m sec evs
    \<and> \<not> tm_isRunning (Timer_start now (tm_run h m sec evs))
    \<and> active (tm_timers (Timer_start now (tm_run h m sec evs))) = []
    \<and> 0 \<le> getInputTime s"
proof -
  let ?s = "tm_run h m sec evs"
  have inv: "tm_inv ?s" by (rule tm_run_inv)
  with assms have z: "tm_totalTime ?s = 0" "tm_remainingTime ?s = 0" "\<not> tm_isRunning ?s"
    by (simp_all add: tm_inv_def)
  with inv have idle: "active (tm_timers ?s) = []"
    by (simp add: tm_inv_def)
  from z assms have "Timer_start now ?s = ?s\<lparr>tm_remainingTime := 0, tm_totalTime := 0\<rparr>"
    by (simp add: Timer_start_def Let_def)
  with z have same: "Timer_start now ?s = ?s"
    by (simp add: unchanged_when_zero)
  show ?thesis
    unfolding same using z idle getInputTime_nonneg [of s] by simp
qed

text \<open>
  Five seconds configured, started, paused with three seconds left; the seconds field is
  then set to 0, which takes the remaining time to 0 with it. Start leaves that state as it
  is.
\<close>

theorem Timer_start_declines_witness:
  "getInputTime (tm_run (Some 0) (Some 0) (Some 5)
       [(0, TStart), (2000, TFire 1), (2000, TPause), (2500, SecondsIn (Some 0))]) = 0
   \<and> Timer_start 3000 (tm_run (Some 0) (Some 0) (Some 5)
       [(0, TStart), (2000, TFire 1), (2000, TPause), (2500, SecondsIn (Some 0))])
     = tm_run (Some 0) (Some 0) (Some 5)
       [(0, TStart), (2000, TFire 1), (2000, TPause), (2500, SecondsIn (Some 0))]
   \<and> \<not> tm_isRunning (Timer_start 3000 (tm_run (Some 0) (Some 0) (Some 5)
       [(0, TStart), (2000, TFire 1), (2000, TPause), (2500, SecondsIn (Some 0))]))"
proof -
  have a: "getInputTime (tm_run (Some 0) (Some 0) (Some 5)
       [(0, TStart), (2000, TFire 1), (2000, TPause), (2500, SecondsIn (Some 0))]) = 0"
    by code_simp
  from Timer_start_declines [OF a, of 3000] a show ?thesis by blast
qed

subsection \<open>A run left alone\<close>

lemma start_counting:
  assumes "\<not> tm_isRunning s" "0 < run_length s"
  shows "Timer_counting (now + run_length s) (beeps s) (next_handle (tm_timers s))
           (Timer_start now s)"
  using assms
  by (simp add: Timer_counting_def run_length_def Timer_start_def Let_def setInterval_def
      Timer_updateButtons_def split: if_splits)

lemma fire_early:
  assumes "Timer_counting e b h s" "now < e"
  shows "Timer_counting e b h (Timer_fire h now s)"
    and "tm_remainingTime (Timer_fire h now s) = e - now"
  using assms
  by (simp_all add: Timer_counting_def Timer_fire_def Timer_tick_def Timer_updateDisplay_def Let_def)

lemma fire_late:
  assumes "Timer_counting e b h s" "e \<le> now"
  shows "Timer_completed b h (Timer_fire h now s)"
  using assms
  by (simp add: Timer_counting_def Timer_completed_def Timer_fire_def Timer_tick_def
      complete_def Timer_pause_def clearInterval_def tm_view_defs Let_def)

lemma fire_completed:
  assumes "Timer_completed b h s"
  shows "Timer_fire h now s = s"
  using assms by (simp add: Timer_completed_def Timer_fire_def)

lemma Timer_fires_Cons: "Timer_fires h (t # ts) s = Timer_fires h ts (Timer_fire h t s)"
  by (simp add: Timer_fires_def)

lemma fires_completed: "Timer_completed b h s \<Longrightarrow> Timer_fires h ts s = s"
  by (induction ts) (simp_all add: Timer_fires_def fire_completed)

lemma fires_early:
  "Timer_counting e b h s \<Longrightarrow> \<forall>t \<in> set ts. t < e \<Longrightarrow>
     Timer_counting e b h (Timer_fires h ts s)
     \<and> (ts \<noteq> [] \<longrightarrow> tm_remainingTime (Timer_fires h ts s) = e - last ts)"
proof (induction ts arbitrary: s)
  case Nil
  then show ?case by (simp add: Timer_fires_def)
next
  case (Cons t ts)
  from Cons.prems have c: "Timer_counting e b h (Timer_fire h t s)"
    and r: "tm_remainingTime (Timer_fire h t s) = e - t"
    by (simp_all add: fire_early)
  from Cons.prems have "\<forall>t \<in> set ts. t < e" by simp
  with c have "Timer_counting e b h (Timer_fires h ts (Timer_fire h t s))
     \<and> (ts \<noteq> [] \<longrightarrow> tm_remainingTime (Timer_fires h ts (Timer_fire h t s)) = e - last ts)"
    by (rule Cons.IH)
  with r show ?case by (simp add: Timer_fires_Cons Timer_fires_def)
qed

lemma fires_late:
  "Timer_counting e b h s \<Longrightarrow> \<exists>t \<in> set ts. e \<le> t \<Longrightarrow> Timer_completed b h (Timer_fires h ts s)"
proof (induction ts arbitrary: s)
  case Nil
  then show ?case by simp
next
  case (Cons t ts)
  show ?case
  proof (cases "e \<le> t")
    case True
    with Cons.prems(1) have "Timer_completed b h (Timer_fire h t s)" by (rule fire_late)
    then show ?thesis by (simp add: Timer_fires_Cons fires_completed)
  next
    case False
    with Cons.prems have "Timer_counting e b h (Timer_fire h t s)" and "\<exists>t \<in> set ts. e \<le> t"
      by (simp_all add: fire_early)
    then show ?thesis unfolding Timer_fires_Cons by (rule Cons.IH)
  qed
qed

text \<open>
  Claim C2. A timer that is not running is started at the instant \<open>now\<close> with a positive
  duration to count down (the configured duration when nothing remains), and then nothing
  happens but the interval firing, at the instants \<open>ts\<close>. If one of these instants is at
  or after the end instant, the countdown has completed: the timer is paused, the remaining
  time is 0, the interval is cancelled, the overlay is shown, and exactly one group of three
  beeps, at delays 0, 300 and 600 ms, has been added, however many firings were attempted
  after the completing one. If all instants are before the end instant, the countdown is
  still in progress and no beep has been added. At the cadence of 100 ms, with \<open>n\<close> firings
  where \<open>100 * n\<close> is at least the duration, the countdown has completed.
\<close>

theorem Timer_completes_once:
  assumes "\<not> tm_isRunning s" and "0 < run_length s"
  shows "tm_remainingTime (Timer_start now s) = run_length s
    \<and> ((\<exists>t \<in> set ts. now + run_length s \<le> t) \<longrightarrow>
          Timer_completed (beeps s) (next_handle (tm_timers s))
            (Timer_fires (next_handle (tm_timers s)) ts (Timer_start now s)))
    \<and> ((\<forall>t \<in> set ts. t < now + run_length s) \<longrightarrow>
          Timer_counting (now + run_length s) (beeps s) (next_handle (tm_timers s))
            (Timer_fires (next_handle (tm_timers s)) ts (Timer_start now s)))
    \<and> (run_length s \<le> 100 * int n \<longrightarrow>
          Timer_completed (beeps s) (next_handle (tm_timers s))
            (Timer_fires (next_handle (tm_timers s))
               (map (\<lambda>k. now + 100 * int k) [1..<Suc n]) (Timer_start now s)))"
proof (intro conjI impI)
  show "tm_remainingTime (Timer_start now s) = run_length s"
    using assms
    by (simp add: run_length_def Timer_start_def Let_def setInterval_def split: if_splits)
next
  assume "\<exists>t \<in> set ts. now + run_length s \<le> t"
  with start_counting [OF assms, of now]
  show "Timer_completed (beeps s) (next_handle (tm_timers s))
          (Timer_fires (next_handle (tm_timers s)) ts (Timer_start now s))"
    by (rule fires_late)
next
  assume "\<forall>t \<in> set ts. t < now + run_length s"
  with start_counting [OF assms, of now]
  show "Timer_counting (now + run_length s) (beeps s) (next_handle (tm_timers s))
          (Timer_fires (next_handle (tm_timers s)) ts (Timer_start now s))"
    by (rule fires_early [THEN conjunct1])
next
  assume le: "run_length s \<le> 100 * int n"
  with assms(2) have "0 < n" by (cases n) simp_all
  then have "n \<in> set [1..<Suc n]" by simp
  then have "now + 100 * int n \<in> (\<lambda>k. now + 100 * int k) ` set [1..<Suc n]"
    by (rule image_eqI [OF refl])
  then have "now + 100 * int n \<in> set (map (\<lambda>k. now + 100 * int k) [1..<Suc n])"
    by (simp only: set_map)
  with le have "\<exists>t \<in> set (map (\<lambda>k. now + 100 * int k) [1..<Suc n]). now + run_length s \<le> t"
    by (intro bexI [of _ "now + 100 * int n"]) simp_all
  with start_counting [OF assms, of now]
  show "Timer_completed (beeps s) (next_handle (tm_timers s))
          (Timer_fires (next_handle (tm_timers s))
             (map (\<lambda>k. now + 100 * int k) [1..<Suc n]) (Timer_start now s))"
    by (rule fires_late)
qed

text \<open>
  The scenario of the specification: five seconds configured, started at 0. The interval
  fires before the end, 3 ms after it, and (were the host to try) once more: the timer is
  paused with nothing remaining and the three beeps were requested once.
\<close>

theorem Timer_completes_once_witness:
  "\<not> tm_isRunning (Timer_init (Some 0) (Some 0) (Some 5))
   \<and> run_length (Timer_init (Some 0) (Some 0) (Some 5)) = 5000
   \<and> (\<exists>t \<in> set [100, 2500, 4900, 5003, 5100]. (5000::int) \<le> t)
   \<and> Timer_completed [] 1
         (Timer_fires 1 [100, 2500, 4900, 5003, 5100]
            (Timer_start 0 (Timer_init (Some 0) (Some 0) (Some 5))))"
proof -
  have h1: "\<not> tm_isRunning (Timer_init (Some 0) (Some 0) (Some 5))"
    by code_simp
  have rl: "run_length (Timer_init (Some 0) (Some 0) (Some 5)) = 5000"
    by code_simp
  have h2: "0 < run_length (Timer_init (Some 0) (Some 0) (Some 5))"
    unfolding rl by simp
  have e: "beeps (Timer_init (Some 0) (Some 0) (Some 5)) = []"
    "next_handle (tm_timers (Timer_init (Some 0) (Some 0) (Some 5))) = 1"
    by code_simp+
  have ex: "\<exists>t \<in> set [100, 2500, 4900, 5003, 5100]. (5000::int) \<le> t"
    by simp
  then have "\<exists>t \<in> set [100, 2500, 4900, 5003, 5100].
      0 + run_length (Timer_init (Some 0) (Some 0) (Some 5)) \<le> t"
    unfolding rl by simp
  with Timer_completes_once [OF h1 h2, of 0 "[100, 2500, 4900, 5003, 5100]" 0]
  have "Timer_completed (beeps (Timer_init (Some 0) (Some 0) (Some 5)))
          (next_handle (tm_timers (Timer_init (Some 0) (Some 0) (Some 5))))
          (Timer_fires (next_handle (tm_timers (Timer_init (Some 0) (Some 0) (Some 5))))
             [100, 2500, 4900, 5003, 5100]
             (Timer_start 0 (Timer_init (Some 0) (Some 0) (Some 5))))"
    by blast
  then have "Timer_completed [] 1
         (Timer_fires 1 [100, 2500, 4900, 5003, 5100]
            (Timer_start 0 (Timer_init (Some 0) (Some 0) (Some 5))))"
    unfolding e .
  with h1 rl ex show ?thesis by (intro conjI)
qed

end
